theory Spec2Isabelle
  imports Complex_Main
begin

section \<open>Strings, configuration and errors\<close>

text \<open>
  A Python \<open>str\<close> is a sequence of Unicode code points; a code point is modelled as a
  natural number, so that non-Latin text (which the detector must survive) is in the
  domain of every function below.  \<open>py\<close> turns an Isabelle string literal into such
  a sequence.
\<close>

type_synonym codepoint = nat
type_synonym pystr = "codepoint list"

definition py :: "string \<Rightarrow> pystr" where
  "py s = map of_char s"

datatype py_error = ZeroDivisionError | OSError | UnicodeDecodeError

text \<open>\<open>config.MIN_SEED_WORDS\<close> and \<open>config.BIP39_WORDLIST_FILE\<close>.\<close>

definition MIN_SEED_WORDS :: nat where
  "MIN_SEED_WORDS = 12"

definition BIP39_WORDLIST_FILE :: pystr where
  "BIP39_WORDLIST_FILE = py ''english.txt''"

text \<open>
  The character class \<open>[a-zA-Z]\<close> of the regular expression (no flags are given, so
  it is the ASCII letters only).
\<close>

definition is_ascii_letter :: "codepoint \<Rightarrow> bool" where
  "is_ascii_letter c \<longleftrightarrow> (97 \<le> c \<and> c \<le> 122) \<or> (65 \<le> c \<and> c \<le> 90)"

text \<open>
  Whitespace as CPython decides it for \<open>str\<close>: the same table serves the class
  \<open>\s\<close> of a \<open>str\<close> pattern, \<open>str.split()\<close> without argument, \<open>str.strip()\<close>
  and \<open>str.isspace()\<close>.  It holds the ASCII controls 9 to 13 and 28 to 31, the space,
  NEL (133), the no-break space (160) and the Unicode space separators.
\<close>

definition is_space_py :: "codepoint \<Rightarrow> bool" where
  "is_space_py c \<longleftrightarrow>
     (9 \<le> c \<and> c \<le> 13) \<or> (28 \<le> c \<and> c \<le> 32) \<or> c = 133 \<or> c = 160 \<or> c = 5760 \<or>
     (8192 \<le> c \<and> c \<le> 8202) \<or> c = 8232 \<or> c = 8233 \<or> c = 8239 \<or> c = 8287 \<or> c = 12288"

section \<open>String primitives\<close>

text \<open>\<open>re.sub(r'[^a-zA-Z\s]', ' ', text)\<close>: every other character becomes one space.\<close>

definition re_sub_non_english :: "pystr \<Rightarrow> pystr" where
  "re_sub_non_english text =
     map (\<lambda>c. if is_ascii_letter c \<or> is_space_py c then c else 32) text"

text \<open>
  \<open>str.split()\<close> without argument: the maximal runs of non-whitespace characters, in
  order; \<open>cur\<close> is the run being read.
\<close>

fun split_acc :: "pystr \<Rightarrow> pystr \<Rightarrow> pystr list" where
  "split_acc cur [] = (if cur = [] then [] else [cur])"
| "split_acc cur (c # cs) =
     (if is_space_py c
      then (if cur = [] then split_acc [] cs else cur # split_acc [] cs)
      else split_acc (cur @ [c]) cs)"

definition split_py :: "pystr \<Rightarrow> pystr list" where
  "split_py s = split_acc [] s"

text \<open>\<open>str.strip()\<close> without argument.\<close>

definition strip_py :: "pystr \<Rightarrow> pystr" where
  "strip_py s = rev (dropWhile is_space_py (rev (dropWhile is_space_py s)))"

text \<open>
  \<open>str.lower()\<close>.  On ASCII it moves \<open>A-Z\<close> to \<open>a-z\<close> and nothing else.  Beyond
  ASCII Python follows the Unicode case tables, which are not modelled: there the
  function below is the identity.  The tokenizer calls it on strings of ASCII letters
  only (lemma \<open>raw_tokens_ascii_letters\<close>), where the two agree.
\<close>

definition lower_cp :: "codepoint \<Rightarrow> codepoint" where
  "lower_cp c = (if 65 \<le> c \<and> c \<le> 90 then c + 32 else c)"

definition lower_py :: "pystr \<Rightarrow> pystr" where
  "lower_py s = map lower_cp s"

text \<open>\<open>" ".join(ws)\<close>.\<close>

fun join_space :: "pystr list \<Rightarrow> pystr" where
  "join_space [] = []"
| "join_space [w] = w"
| "join_space (w # v # ws) = w @ 32 # join_space (v # ws)"

section \<open>The tokenizer\<close>

text \<open>
  \<open>extract_english_words\<close>: the list comprehension
  \<open>[word.lower() for word in english_only.split() if word.strip()]\<close>.
\<close>

definition extract_english_words :: "pystr \<Rightarrow> pystr list" where
  "extract_english_words text =
     (let english_only = re_sub_non_english text
      in map lower_py (filter (\<lambda>word. strip_py word \<noteq> []) (split_py english_only)))"

section \<open>Arithmetic of the thresholds\<close>

text \<open>
  The source compares integers with \<open>config.MIN_SEED_WORDS * 0.9\<close> and with the
  quotient \<open>len(bip39_matches) / len(words)\<close>, both Python floats.  They are modelled by
  exact rationals.  For the configured \<open>MIN_SEED_WORDS = 12\<close> the product is the double
  next to 10.8, which lies strictly between 10 and 11 as 10.8 does; Python's \<open>/\<close> on
  integers is correctly rounded and 0.5 is a double, so the quotient reaches 0.5 exactly
  when the exact fraction does, for every token count below \<open>2 ^ 53\<close>.

  \<open>/\<close> raises \<open>ZeroDivisionError\<close> on a zero divisor.
\<close>

definition py_truediv :: "nat \<Rightarrow> nat \<Rightarrow> py_error + rat" where
  "py_truediv a b = (if b = 0 then Inl ZeroDivisionError else Inr (of_nat a / of_nat b))"

section \<open>The classifier\<close>

text \<open>
  The first loop of \<open>is_potential_seed_phrase\<close>, over \<open>words\<close>, with its two variables
  \<open>(consecutive_count, max_consecutive)\<close> as the state.
\<close>

fun count_consecutive :: "pystr set \<Rightarrow> pystr list \<Rightarrow> nat \<times> nat \<Rightarrow> nat \<times> nat" where
  "count_consecutive D [] st = st"
| "count_consecutive D (word # ws) (consecutive_count, max_consecutive) =
     (if word \<in> D
      then count_consecutive D ws
             (consecutive_count + 1, max max_consecutive (consecutive_count + 1))
      else count_consecutive D ws (0, max_consecutive))"

text \<open>
  The indices of the window loop, \<open>range(len(words) - config.MIN_SEED_WORDS + 1)\<close>
  (empty when the bound is not positive), and the slice
  \<open>words[i:i+config.MIN_SEED_WORDS]\<close>.
\<close>

definition window_starts :: "pystr list \<Rightarrow> nat list" where
  "window_starts words = [0 ..< nat (int (length words) - int MIN_SEED_WORDS + 1)]"

definition window_at :: "pystr list \<Rightarrow> nat \<Rightarrow> pystr list" where
  "window_at words i = take MIN_SEED_WORDS (drop i words)"

definition windows :: "pystr list \<Rightarrow> pystr list list" where
  "windows words = map (window_at words) (window_starts words)"

text \<open>
  \<open>[word for word in window if word in bip39_words]\<close>; the classifier counts the same
  words with \<open>sum(1 for word in window if word in bip39_words)\<close>.
\<close>

definition matched_words :: "pystr set \<Rightarrow> pystr list \<Rightarrow> pystr list" where
  "matched_words D window = filter (\<lambda>word. word \<in> D) window"

text \<open>The window test \<open>matched_count >= config.MIN_SEED_WORDS * 0.9\<close>.\<close>

definition dense_window :: "pystr set \<Rightarrow> pystr list \<Rightarrow> bool" where
  "dense_window D window \<longleftrightarrow>
     (of_nat MIN_SEED_WORDS :: rat) * (9 / 10) \<le> of_nat (length (matched_words D window))"

text \<open>
  The three \<open>logging.info\<close> calls of the classifier tell which strategy answered; the
  records carry what the messages print.
\<close>

datatype log_record =
    Info_consecutive nat
  | Info_dense_window "pystr list"
  | Info_high_density "pystr list"

text \<open>
  \<open>is_potential_seed_phrase\<close>, statement by statement: the value returned together
  with the records logged on the way, or the exception that escapes.
\<close>

definition is_potential_seed_phrase_logged ::
    "pystr \<Rightarrow> pystr set \<Rightarrow> py_error + bool \<times> log_record list" where
  "is_potential_seed_phrase_logged text D =
     (let words = extract_english_words text in
      if length words < MIN_SEED_WORDS then Inr (False, [])
      else
        let bip39_matches = filter (\<lambda>word. word \<in> D) words in
        if length bip39_matches < MIN_SEED_WORDS then Inr (False, [])
        else
          let max_consecutive = snd (count_consecutive D words (0, 0)) in
          if MIN_SEED_WORDS \<le> max_consecutive
          then Inr (True, [Info_consecutive max_consecutive])
          else
            case find (dense_window D) (windows words) of
              Some window \<Rightarrow> Inr (True, [Info_dense_window window])
            | None \<Rightarrow>
                if MIN_SEED_WORDS \<le> length bip39_matches
                then
                  (case py_truediv (length bip39_matches) (length words) of
                     Inl e \<Rightarrow> Inl e
                   | Inr density \<Rightarrow>
                       if 1 / 2 \<le> density
                       then Inr (True, [Info_high_density bip39_matches])
                       else Inr (False, []))
                else Inr (False, []))"

text \<open>What the caller receives: the boolean, or the exception.\<close>

definition is_potential_seed_phrase :: "pystr \<Rightarrow> pystr set \<Rightarrow> py_error + bool" where
  "is_potential_seed_phrase text D = map_sum id fst (is_potential_seed_phrase_logged text D)"

section \<open>The extractor\<close>

text \<open>
  The first loop of \<open>extract_seed_phrases\<close>, with \<open>(current_phrase, seed_phrases)\<close> as
  the state.
\<close>

fun collect_phrases ::
    "pystr set \<Rightarrow> pystr list \<Rightarrow> pystr list \<times> pystr list \<Rightarrow> pystr list \<times> pystr list" where
  "collect_phrases D [] st = st"
| "collect_phrases D (word # ws) (current_phrase, seed_phrases) =
     (if word \<in> D
      then collect_phrases D ws (current_phrase @ [word], seed_phrases)
      else collect_phrases D ws
             ([], if MIN_SEED_WORDS \<le> length current_phrase
                  then seed_phrases @ [join_space current_phrase]
                  else seed_phrases))"

text \<open>
  \<open>extract_seed_phrases\<close>.  The source returns \<open>list(set(seed_phrases))\<close>, a list
  without duplicates in the iteration order of a Python set, which the language leaves
  open: the model returns the set.
\<close>

definition extract_seed_phrases :: "pystr \<Rightarrow> pystr set \<Rightarrow> pystr set" where
  "extract_seed_phrases text D =
     (let words = extract_english_words text in
      if length words < MIN_SEED_WORDS then {}
      else
        let (current_phrase, seed_phrases) = collect_phrases D words ([], []);
            seed_phrases1 =
              (if MIN_SEED_WORDS \<le> length current_phrase
               then seed_phrases @ [join_space current_phrase]
               else seed_phrases);
            seed_phrases2 =
              seed_phrases1 @
              map (\<lambda>window. join_space (matched_words D window))
                (filter (dense_window D) (windows words))
        in set seed_phrases2)"

section \<open>The dictionary loader\<close>

text \<open>
  The file system as \<open>load_bip39_words\<close> sees it: \<open>os.path.exists\<close>, and what opening
  the file as UTF-8 text and iterating over it yields, either the lines or the exception
  raised by \<open>open\<close> or while reading and decoding.
\<close>

record file_system =
  path_exists :: "pystr \<Rightarrow> bool"
  read_lines :: "pystr \<Rightarrow> py_error + pystr list"

text \<open>The body of the \<open>try\<close> block.\<close>

definition load_bip39_words_body :: "file_system \<Rightarrow> pystr \<Rightarrow> py_error + pystr set" where
  "load_bip39_words_body fs filepath =
     (if \<not> path_exists fs filepath then Inr {}
      else
        case read_lines fs filepath of
          Inl e \<Rightarrow> Inl e
        | Inr lines \<Rightarrow> Inr (set (map strip_py (filter (\<lambda>line. strip_py line \<noteq> []) lines))))"

text \<open>
  \<open>load_bip39_words\<close>: the default path when none is given, and \<open>except Exception\<close>
  around the body, which turns every exception of the body into the empty set.
\<close>

definition load_bip39_words :: "file_system \<Rightarrow> pystr option \<Rightarrow> py_error + pystr set" where
  "load_bip39_words fs filepath_opt =
     (let filepath = (case filepath_opt of None \<Rightarrow> BIP39_WORDLIST_FILE | Some p \<Rightarrow> p) in
      case load_bip39_words_body fs filepath of
        Inl e \<Rightarrow> Inr {}
      | Inr words \<Rightarrow> Inr words)"

section \<open>Example inputs\<close>

text \<open>
  The twelve-word dictionary of the worked examples and the texts the theorems below
  are exercised on: the twelve words in order; eleven of them around one foreign word;
  the twelve words each followed by a foreign word; eleven of them before one foreign
  word; the twelve words inside a sentence; a text with punctuation, digits and Chinese
  characters; and a file system with a readable word list, an undecodable file and
  nothing else.
\<close>

definition example_dictionary :: "pystr set" where
  "example_dictionary =
     {py ''abandon'', py ''ability'', py ''able'', py ''about'', py ''above'', py ''absent'',
      py ''absorb'', py ''abstract'', py ''absurd'', py ''abuse'', py ''access'', py ''accident''}"

definition clean_phrase :: pystr where
  "clean_phrase =
     py ''abandon ability able about above absent absorb abstract absurd abuse access accident''"

definition noisy_phrase :: pystr where
  "noisy_phrase =
     py ''abandon ability able xyz about above absent absorb abstract absurd abuse access''"

definition sparse_phrase :: pystr where
  "sparse_phrase =
     py ''abandon no ability no able no about no above no absent no absorb no abstract no absurd no abuse no access no accident no no''"


definition embedded_phrase :: pystr where
  "embedded_phrase =
     py ''My phrase is: abandon ability able about above absent absorb abstract absurd abuse access accident. Thanks!''"


definition listing_file_system :: file_system where
  "listing_file_system =
     \<lparr>path_exists = (\<lambda>p. p = py ''english.txt'' \<or> p = py ''locked.txt''),
      read_lines = (\<lambda>p. if p = py ''english.txt''
                           then Inr [py ''Abandon'' @ [10], [10], 32 # 32 # py ''able'' @ [9, 10],
                                     py ''able'']
                           else if p = py ''locked.txt'' then Inl UnicodeDecodeError
                           else Inl OSError)\<rparr>"

section \<open>Properties of the tokenizer\<close>










section \<open>The classifier in closed form\<close>

lemma MIN_SEED_WORDS_pos: "0 < MIN_SEED_WORDS"
  by (simp add: MIN_SEED_WORDS_def)

lemma density_half_iff:
  "0 < b \<Longrightarrow> ((1 / 2 :: rat) \<le> of_nat a / of_nat b) = (b \<le> 2 * a)"
proof -
  assume b: "0 < b"
  have "((1 / 2 :: rat) \<le> of_nat a / of_nat b) = ((of_nat b :: rat) \<le> of_nat (2 * a))"
    using b by (simp add: field_simps)
  also have "\<dots> = (b \<le> 2 * a)"
    by (simp only: of_nat_le_iff)
  finally show ?thesis .
qed

lemma find_None_set: "(find P xs = None) = (\<not> (\<exists>x \<in> set xs. P x))"
  by (induction xs) auto

lemma find_Some_set: "find P xs = Some x \<Longrightarrow> x \<in> set xs \<and> P x"
  by (induction xs) (auto split: if_splits)

lemma logged_unfold:
  assumes "words = extract_english_words text"
    and "hits = length (filter (\<lambda>word. word \<in> D) words)"
    and "mx = snd (count_consecutive D words (0, 0))"
  shows "is_potential_seed_phrase_logged text D =
     (if length words < MIN_SEED_WORDS then Inr (False, [])
      else if hits < MIN_SEED_WORDS then Inr (False, [])
      else if MIN_SEED_WORDS \<le> mx then Inr (True, [Info_consecutive mx])
      else case find (dense_window D) (windows words) of
             Some window \<Rightarrow> Inr (True, [Info_dense_window window])
           | None \<Rightarrow>
               if length words \<le> 2 * hits
               then Inr (True, [Info_high_density (filter (\<lambda>word. word \<in> D) words)])
               else Inr (False, []))"
proof (cases "length words < MIN_SEED_WORDS")
  case True
  then show ?thesis
    unfolding is_potential_seed_phrase_logged_def Let_def assms by simp
next
  case False
  then have pos: "0 < length words"
    using MIN_SEED_WORDS_pos by linarith
  have div: "py_truediv hits (length words) = Inr (of_nat hits / of_nat (length words))"
    using pos by (simp add: py_truediv_def)
  have half: "((1 / 2 :: rat) \<le> of_nat hits / of_nat (length words)) = (length words \<le> 2 * hits)"
    using pos by (rule density_half_iff)
  show ?thesis
    unfolding is_potential_seed_phrase_logged_def Let_def assms(1)[symmetric] assms(2)[symmetric]
      assms(3)[symmetric] div sum.case half
    by (simp split: option.split)
qed


lemma is_potential_seed_phrase_eq:
  assumes "words = extract_english_words text"
    and "hits = length (filter (\<lambda>word. word \<in> D) words)"
  shows "is_potential_seed_phrase text D =
     Inr (MIN_SEED_WORDS \<le> length words \<and> MIN_SEED_WORDS \<le> hits \<and>
          (MIN_SEED_WORDS \<le> snd (count_consecutive D words (0, 0)) \<or>
           (\<exists>window \<in> set (windows words). dense_window D window) \<or>
           length words \<le> 2 * hits))"
proof -
  define mx where "mx = snd (count_consecutive D words (0, 0))"
  define dw where "dw = find (dense_window D) (windows words)"
  have ex: "(\<exists>window \<in> set (windows words). dense_window D window) = (dw \<noteq> None)"
    unfolding dw_def by (simp add: find_None_set)
  have "map_sum id fst (is_potential_seed_phrase_logged text D) =
     Inr (MIN_SEED_WORDS \<le> length words \<and> MIN_SEED_WORDS \<le> hits \<and>
          (MIN_SEED_WORDS \<le> mx \<or> dw \<noteq> None \<or> length words \<le> 2 * hits))"
    unfolding logged_unfold [OF assms mx_def] dw_def [symmetric]
    by (cases dw) (simp_all add: not_less)
  then show ?thesis
    unfolding is_potential_seed_phrase_def ex mx_def .
qed

section \<open>The run counter\<close>

lemma count_consecutive_append:
  "count_consecutive D (xs @ ys) st = count_consecutive D ys (count_consecutive D xs st)"
proof (induction xs arbitrary: st)
  case Nil
  show ?case by simp
next
  case (Cons x xs)
  obtain c m where st: "st = (c, m)" by (cases st)
  show ?case unfolding st by (simp add: Cons.IH)
qed

lemma count_consecutive_snd_ge: "m \<le> snd (count_consecutive D ws (c, m))"
proof (induction ws arbitrary: c m)
  case Nil
  show ?case by simp
next
  case (Cons w ws)
  show ?case
  proof (cases "w \<in> D")
    case True
    have "max m (c + 1) \<le> snd (count_consecutive D ws (c + 1, max m (c + 1)))"
      by (rule Cons.IH)
    with True show ?thesis by simp
  next
    case False
    with Cons.IH [of m 0] show ?thesis by simp
  qed
qed

lemma count_consecutive_run:
  "set run \<subseteq> D \<Longrightarrow> c + length run \<le> snd (count_consecutive D (run @ post) (c, max m c))"
proof (induction run arbitrary: c m)
  case Nil
  have "max m c \<le> snd (count_consecutive D post (c, max m c))"
    by (rule count_consecutive_snd_ge)
  then show ?case by simp
next
  case (Cons w run)
  then have w: "w \<in> D" and run: "set run \<subseteq> D" by simp_all
  have "max (max m c) (c + 1) = max (max m c) (c + 1)" by simp
  have "(c + 1) + length run \<le> snd (count_consecutive D (run @ post) (c + 1, max (max m c) (c + 1)))"
    using Cons.IH [OF run, of "c + 1" "max m c"] by simp
  with w show ?case by simp
qed

lemma count_consecutive_fst_le_snd:
  "c \<le> m \<Longrightarrow> fst (count_consecutive D ws (c, m)) \<le> snd (count_consecutive D ws (c, m))"
proof (induction ws arbitrary: c m)
  case Nil
  then show ?case by simp
next
  case (Cons w ws)
  show ?case
  proof (cases "w \<in> D")
    case True
    have "c + 1 \<le> max m (c + 1)" by simp
    from Cons.IH [OF this] True show ?thesis by simp
  next
    case False
    have "0 \<le> m" by simp
    from Cons.IH [OF this] False show ?thesis by simp
  qed
qed

lemma run_reaches_max:
  assumes "words = pre @ run @ post" and "set run \<subseteq> D"
  shows "length run \<le> snd (count_consecutive D words (0, 0))"
proof -
  obtain c m where st: "count_consecutive D pre (0, 0) = (c, m)"
    by (cases "count_consecutive D pre (0, 0)")
  have "c \<le> m"
    using count_consecutive_fst_le_snd [of 0 0 D pre] by (simp add: st)
  then have mx: "max m c = m" by simp
  have "c + length run \<le> snd (count_consecutive D (run @ post) (c, max m c))"
    using assms(2) by (rule count_consecutive_run)
  then have "length run \<le> snd (count_consecutive D (run @ post) (c, m))"
    unfolding mx by simp
  then show ?thesis
    unfolding assms(1) count_consecutive_append st .
qed

lemma count_consecutive_mono:
  "D \<subseteq> D' \<Longrightarrow> c \<le> c' \<Longrightarrow> m \<le> m' \<Longrightarrow>
     fst (count_consecutive D ws (c, m)) \<le> fst (count_consecutive D' ws (c', m')) \<and>
     snd (count_consecutive D ws (c, m)) \<le> snd (count_consecutive D' ws (c', m'))"
proof (induction ws arbitrary: c m c' m')
  case Nil
  then show ?case by simp
next
  case (Cons w ws)
  show ?case
  proof (cases "w \<in> D")
    case True
    with Cons.prems have w': "w \<in> D'" by blast
    have "c + 1 \<le> c' + 1" "max m (c + 1) \<le> max m' (c' + 1)"
      using Cons.prems by (simp_all add: max_def)
    from Cons.IH [OF Cons.prems(1) this] True w' show ?thesis by simp
  next
    case False
    note nD = this
    show ?thesis
    proof (cases "w \<in> D'")
      case True
      have "0 \<le> c' + 1" "m \<le> max m' (c' + 1)"
        using Cons.prems by (simp_all add: max_def)
      from Cons.IH [OF Cons.prems(1) this] nD True show ?thesis by simp
    next
      case False
      have "(0::nat) \<le> 0" by simp
      from Cons.IH [OF Cons.prems(1) this Cons.prems(3)] nD False show ?thesis by simp
    qed
  qed
qed

lemma matched_words_mono:
  "D \<subseteq> D' \<Longrightarrow> length (filter (\<lambda>word. word \<in> D) ws) \<le> length (filter (\<lambda>word. word \<in> D') ws)"
  by (induction ws) auto

lemma dense_window_mono:
  "D \<subseteq> D' \<Longrightarrow> dense_window D window \<Longrightarrow> dense_window D' window"
proof -
  assume sub: "D \<subseteq> D'" and d: "dense_window D window"
  have "(of_nat (length (matched_words D window)) :: rat) \<le> of_nat (length (matched_words D' window))"
    unfolding matched_words_def of_nat_le_iff using sub by (rule matched_words_mono)
  with d show ?thesis unfolding dense_window_def by (rule order_trans)
qed

section \<open>The extractor against the classifier\<close>



section \<open>Evaluation of the examples\<close>

lemmas tokenizer_eval =
  extract_english_words_def Let_def re_sub_non_english_def split_py_def strip_py_def
  lower_py_def lower_cp_def is_ascii_letter_def is_space_py_def py_def

lemma clean_phrase_tokens:
  "extract_english_words clean_phrase =
     [py ''abandon'', py ''ability'', py ''able'', py ''about'', py ''above'', py ''absent'',
      py ''absorb'', py ''abstract'', py ''absurd'', py ''abuse'', py ''access'', py ''accident'']"
  by (simp add: clean_phrase_def tokenizer_eval)

lemma noisy_phrase_tokens:
  "extract_english_words noisy_phrase =
     [py ''abandon'', py ''ability'', py ''able'', py ''xyz'', py ''about'', py ''above'',
      py ''absent'', py ''absorb'', py ''abstract'', py ''absurd'', py ''abuse'', py ''access'']"
  by (simp add: noisy_phrase_def tokenizer_eval)

lemma sparse_phrase_tokens:
  "extract_english_words sparse_phrase =
     [py ''abandon'', py ''no'', py ''ability'', py ''no'', py ''able'', py ''no'', py ''about'',
      py ''no'', py ''above'', py ''no'', py ''absent'', py ''no'', py ''absorb'', py ''no'',
      py ''abstract'', py ''no'', py ''absurd'', py ''no'', py ''abuse'', py ''no'', py ''access'',
      py ''no'', py ''accident'', py ''no'', py ''no'']"
  by (simp add: sparse_phrase_def tokenizer_eval)


lemma embedded_phrase_tokens:
  "extract_english_words embedded_phrase =
     [py ''my'', py ''phrase'', py ''is''] @
     [py ''abandon'', py ''ability'', py ''able'', py ''about'', py ''above'', py ''absent'',
      py ''absorb'', py ''abstract'', py ''absurd'', py ''abuse'', py ''access'', py ''accident''] @
     [py ''thanks'']"
  by (simp add: embedded_phrase_def tokenizer_eval)

lemmas detector_eval =
  example_dictionary_def py_def MIN_SEED_WORDS_def windows_def window_starts_def
  window_at_def dense_window_def matched_words_def

lemma upt_14: "[0..<14] = [0, 1, 2, 3, 4, 5, 6, 7, 8, 9, 10, 11, 12, 13]"
  by (simp add: upt_rec)


lemma sparse_logged:
  "is_potential_seed_phrase_logged sparse_phrase example_dictionary = Inr (False, [])"
  unfolding logged_unfold [OF sparse_phrase_tokens [symmetric] refl refl]
  by (simp add: detector_eval upt_14)

lemma sparse_extract:
  "extract_seed_phrases sparse_phrase example_dictionary = {}"
  unfolding extract_seed_phrases_def sparse_phrase_tokens Let_def
  by (simp add: detector_eval upt_14)

lemma noisy_logged:
  "is_potential_seed_phrase_logged noisy_phrase example_dictionary = Inr (False, [])"
  unfolding logged_unfold [OF noisy_phrase_tokens [symmetric] refl refl]
  by (simp add: detector_eval)



lemma clean_logged:
  "is_potential_seed_phrase_logged clean_phrase example_dictionary = Inr (True, [Info_consecutive 12])"
  unfolding logged_unfold [OF clean_phrase_tokens [symmetric] refl refl]
  by (simp add: detector_eval)

lemma clean_extract:
  "extract_seed_phrases clean_phrase example_dictionary = {clean_phrase}"
  unfolding extract_seed_phrases_def clean_phrase_tokens Let_def
  by (simp add: detector_eval clean_phrase_def)

lemma returned_value:
  "is_potential_seed_phrase_logged text D = Inr (b, l) \<Longrightarrow> is_potential_seed_phrase text D = Inr b"
  by (simp add: is_potential_seed_phrase_def)

lemmas fs_eval = listing_file_system_def py_def strip_py_def is_space_py_def BIP39_WORDLIST_FILE_def


text \<open>
  The double that \<open>12 * 0.9\<close> evaluates to is \<open>3039929748475085 / 2 ^ 48\<close>, a little above
  10.8.  Against it the window test selects the same counts as against the exact product.
\<close>

lemma window_threshold_double:
  "((3039929748475085 / 281474976710656 :: rat) \<le> of_nat k) = (11 \<le> k)"
proof -
  have "((3039929748475085 / 281474976710656 :: rat) \<le> of_nat k)
        = ((of_nat 3039929748475085 :: rat) \<le> of_nat (281474976710656 * k))"
    by (simp add: field_simps)
  also have "\<dots> = (3039929748475085 \<le> 281474976710656 * k)"
    by (simp only: of_nat_le_iff)
  also have "\<dots> = (11 \<le> k)"
    by arith
  finally show ?thesis .
qed

section \<open>The claims\<close>




text \<open>
  Claim C2, as the code has it.  With \<open>MIN_SEED_WORDS = 12\<close> and the twelve-word
  dictionary, the text \<open>abandon ability able xyz about above absent absorb abstract absurd
  abuse access\<close> has twelve tokens, eleven of them in the dictionary.  Its only window is
  the whole text and holds the eleven hits that the window test asks for, but the
  classifier returns \<open>False\<close> before it looks at windows, at the guard
  \<open>len(bip39_matches) < config.MIN_SEED_WORDS\<close>, and logs nothing.  The second theorem
  states that the answer is not \<open>True\<close>.
\<close>

theorem noisy_phrase_rejected_by_hit_guard:
  "is_potential_seed_phrase noisy_phrase example_dictionary = Inr False \<and>
   is_potential_seed_phrase_logged noisy_phrase example_dictionary = Inr (False, []) \<and>
   length (extract_english_words noisy_phrase) = 12 \<and>
   length (filter (\<lambda>word. word \<in> example_dictionary) (extract_english_words noisy_phrase)) = 11 \<and>
   windows (extract_english_words noisy_phrase) = [extract_english_words noisy_phrase] \<and>
   dense_window example_dictionary (extract_english_words noisy_phrase)"
proof -
  have "length (extract_english_words noisy_phrase) = 12"
    unfolding noisy_phrase_tokens by simp
  moreover have "length (filter (\<lambda>word. word \<in> example_dictionary) (extract_english_words noisy_phrase)) = 11"
    unfolding noisy_phrase_tokens by (simp add: detector_eval)
  moreover have "windows (extract_english_words noisy_phrase) = [extract_english_words noisy_phrase]"
    unfolding noisy_phrase_tokens by (simp add: detector_eval)
  moreover have "dense_window example_dictionary (extract_english_words noisy_phrase)"
    unfolding noisy_phrase_tokens by (simp add: detector_eval)
  ultimately show ?thesis
    using noisy_logged returned_value [OF noisy_logged] by simp
qed

theorem noisy_phrase_not_accepted:
  "is_potential_seed_phrase noisy_phrase example_dictionary \<noteq> Inr True"
  by (simp add: returned_value [OF noisy_logged])

text \<open>
  Claim C3.  A text whose tokens hold exactly \<open>MIN_SEED_WORDS - 1\<close> dictionary words, in
  any arrangement, is classified \<open>False\<close>; a text whose tokens hold \<open>MIN_SEED_WORDS\<close>
  dictionary words in a row (after any tokens \<open>pre\<close> and before any tokens \<open>post\<close>) is
  classified \<open>True\<close>.
\<close>

theorem boundary_hit_counts:
  "(length (filter (\<lambda>word. word \<in> D) (extract_english_words text)) = MIN_SEED_WORDS - 1 \<longrightarrow>
      is_potential_seed_phrase text D = Inr False) \<and>
   (extract_english_words text = pre @ run @ post \<and> length run = MIN_SEED_WORDS \<and> set run \<subseteq> D \<longrightarrow>
      is_potential_seed_phrase text D = Inr True)"
proof (intro conjI impI)
  assume "length (filter (\<lambda>word. word \<in> D) (extract_english_words text)) = MIN_SEED_WORDS - 1"
  then have "\<not> MIN_SEED_WORDS \<le> length (filter (\<lambda>word. word \<in> D) (extract_english_words text))"
    using MIN_SEED_WORDS_pos by simp
  then show "is_potential_seed_phrase text D = Inr False"
    unfolding is_potential_seed_phrase_eq [OF refl refl] by simp
next
  assume a: "extract_english_words text = pre @ run @ post \<and> length run = MIN_SEED_WORDS \<and> set run \<subseteq> D"
  then have words: "extract_english_words text = pre @ run @ post"
    and len: "length run = MIN_SEED_WORDS" and sub: "set run \<subseteq> D" by simp_all
  have mx: "MIN_SEED_WORDS \<le> snd (count_consecutive D (extract_english_words text) (0, 0))"
    using run_reaches_max [OF words sub] len by simp
  have l: "MIN_SEED_WORDS \<le> length (extract_english_words text)"
    unfolding words using len by simp
  have "filter (\<lambda>word. word \<in> D) run = run"
    using sub by (simp add: subset_iff)
  then have h: "MIN_SEED_WORDS \<le> length (filter (\<lambda>word. word \<in> D) (extract_english_words text))"
    unfolding words using len by simp
  from mx l h show "is_potential_seed_phrase text D = Inr True"
    unfolding is_potential_seed_phrase_eq [OF refl refl] by simp
qed

theorem boundary_hit_counts_witness:
  "length (filter (\<lambda>word. word \<in> example_dictionary) (extract_english_words noisy_phrase))
     = MIN_SEED_WORDS - 1 \<and>
   is_potential_seed_phrase noisy_phrase example_dictionary = Inr False \<and>
   extract_english_words embedded_phrase =
     [py ''my'', py ''phrase'', py ''is''] @ extract_english_words clean_phrase @ [py ''thanks''] \<and>
   length (extract_english_words clean_phrase) = MIN_SEED_WORDS \<and>
   set (extract_english_words clean_phrase) \<subseteq> example_dictionary \<and>
   is_potential_seed_phrase embedded_phrase example_dictionary = Inr True"
proof -
  have h1: "length (filter (\<lambda>word. word \<in> example_dictionary) (extract_english_words noisy_phrase))
     = MIN_SEED_WORDS - 1"
    unfolding noisy_phrase_tokens by (simp add: detector_eval)
  have h2: "extract_english_words embedded_phrase =
     [py ''my'', py ''phrase'', py ''is''] @ extract_english_words clean_phrase @ [py ''thanks'']"
    unfolding embedded_phrase_tokens clean_phrase_tokens by (rule refl)
  have h3: "length (extract_english_words clean_phrase) = MIN_SEED_WORDS"
    unfolding clean_phrase_tokens by (simp add: MIN_SEED_WORDS_def)
  have h4: "set (extract_english_words clean_phrase) \<subseteq> example_dictionary"
    unfolding clean_phrase_tokens by (simp add: example_dictionary_def)
  from boundary_hit_counts [of example_dictionary noisy_phrase] h1
  have c1: "is_potential_seed_phrase noisy_phrase example_dictionary = Inr False" by blast
  from boundary_hit_counts [of example_dictionary embedded_phrase "[py ''my'', py ''phrase'', py ''is'']"
      "extract_english_words clean_phrase" "[py ''thanks'']"] h2 h3 h4
  have c2: "is_potential_seed_phrase embedded_phrase example_dictionary = Inr True" by blast
  from h1 c1 h2 h3 h4 c2 show ?thesis by blast
qed

text \<open>
  Claim C4.  With the empty dictionary the classifier returns \<open>False\<close> on every text.
\<close>

theorem empty_dictionary_never_matches:
  "is_potential_seed_phrase text {} = Inr False"
proof -
  have "\<not> MIN_SEED_WORDS \<le> length (filter (\<lambda>word. word \<in> {}) (extract_english_words text))"
    using MIN_SEED_WORDS_pos by simp
  then show ?thesis
    by (simp only: is_potential_seed_phrase_eq [OF refl refl] simp_thms)
qed

text \<open>
  Claim C5.  With \<open>MIN_SEED_WORDS = 12\<close> and the twelve-word dictionary, the text that is
  the twelve words joined by single spaces is classified \<open>True\<close> by the contiguous-run
  strategy (the record logged is that of a run of twelve), and the extractor returns the
  set whose only element is that text.
\<close>

theorem clean_phrase_detected:
  "clean_phrase =
     join_space [py ''abandon'', py ''ability'', py ''able'', py ''about'', py ''above'',
       py ''absent'', py ''absorb'', py ''abstract'', py ''absurd'', py ''abuse'', py ''access'',
       py ''accident''] \<and>
   is_potential_seed_phrase clean_phrase example_dictionary = Inr True \<and>
   is_potential_seed_phrase_logged clean_phrase example_dictionary =
     Inr (True, [Info_consecutive 12]) \<and>
   extract_seed_phrases clean_phrase example_dictionary = {clean_phrase}"
proof -
  have "clean_phrase =
     join_space [py ''abandon'', py ''ability'', py ''able'', py ''about'', py ''above'',
       py ''absent'', py ''absorb'', py ''abstract'', py ''absurd'', py ''abuse'', py ''access'',
       py ''accident'']"
    by (simp add: clean_phrase_def py_def)
  then show ?thesis
    using clean_logged returned_value [OF clean_logged] clean_extract by simp
qed



text \<open>
  Claim C7.  The loader returns a set for every path argument and never raises.  It
  returns the empty set when the file does not exist and when opening, reading or
  decoding it fails; when the file is read, it returns the lines stripped of surrounding
  whitespace, without the lines that are empty once stripped and without any change of
  case.  Without argument it loads the configured default path.
\<close>

theorem load_bip39_words_results:
  "(\<exists>words. load_bip39_words fs filepath_opt = Inr words) \<and>
   (\<not> path_exists fs p \<longrightarrow> load_bip39_words fs (Some p) = Inr {}) \<and>
   (read_lines fs p = Inl e \<longrightarrow> load_bip39_words fs (Some p) = Inr {}) \<and>
   (path_exists fs p \<and> read_lines fs p = Inr lines \<longrightarrow>
      load_bip39_words fs (Some p) = Inr (strip_py ` {line \<in> set lines. strip_py line \<noteq> []})) \<and>
   load_bip39_words fs None = load_bip39_words fs (Some BIP39_WORDLIST_FILE)"
proof (intro conjI impI)
  show "\<exists>words. load_bip39_words fs filepath_opt = Inr words"
    unfolding load_bip39_words_def Let_def
    by (cases "load_bip39_words_body fs (case filepath_opt of None \<Rightarrow> BIP39_WORDLIST_FILE | Some p \<Rightarrow> p)")
      simp_all
next
  assume "\<not> path_exists fs p"
  then show "load_bip39_words fs (Some p) = Inr {}"
    by (simp add: load_bip39_words_def load_bip39_words_body_def)
next
  assume "read_lines fs p = Inl e"
  then show "load_bip39_words fs (Some p) = Inr {}"
    by (simp add: load_bip39_words_def load_bip39_words_body_def)
next
  assume "path_exists fs p \<and> read_lines fs p = Inr lines"
  then show "load_bip39_words fs (Some p) = Inr (strip_py ` {line \<in> set lines. strip_py line \<noteq> []})"
    by (simp add: load_bip39_words_def load_bip39_words_body_def)
next
  show "load_bip39_words fs None = load_bip39_words fs (Some BIP39_WORDLIST_FILE)"
    by (simp add: load_bip39_words_def)
qed

theorem load_bip39_words_results_witness:
  "\<not> path_exists listing_file_system (py ''missing.txt'') \<and>
   load_bip39_words listing_file_system (Some (py ''missing.txt'')) = Inr {} \<and>
   read_lines listing_file_system (py ''locked.txt'') = Inl UnicodeDecodeError \<and>
   load_bip39_words listing_file_system (Some (py ''locked.txt'')) = Inr {} \<and>
   path_exists listing_file_system (py ''english.txt'') \<and>
   load_bip39_words listing_file_system None = Inr {py ''Abandon'', py ''able''}"
proof -
  have h1: "\<not> path_exists listing_file_system (py ''missing.txt'')"
    by (simp add: fs_eval)
  have h2: "read_lines listing_file_system (py ''locked.txt'') = Inl UnicodeDecodeError"
    by (simp add: fs_eval)
  have h3: "path_exists listing_file_system (py ''english.txt'')"
    by (simp add: fs_eval)
  have h4: "read_lines listing_file_system (py ''english.txt'') =
     Inr [py ''Abandon'' @ [10], [10], 32 # 32 # py ''able'' @ [9, 10], py ''able'']"
    by (simp add: fs_eval)
  have "set (map strip_py (filter (\<lambda>line. strip_py line \<noteq> [])
           [py ''Abandon'' @ [10], [10], 32 # 32 # py ''able'' @ [9, 10], py ''able'']))
         = {py ''Abandon'', py ''able''}"
    by (simp add: fs_eval)
  then have s: "strip_py ` {line \<in> set [py ''Abandon'' @ [10], [10], 32 # 32 # py ''able'' @ [9, 10], py ''able''].
              strip_py line \<noteq> []} = {py ''Abandon'', py ''able''}"
    by (simp only: set_map set_filter)
  note inst = load_bip39_words_results [of listing_file_system]
  from inst [of None "py ''missing.txt''"] h1
  have c1: "load_bip39_words listing_file_system (Some (py ''missing.txt'')) = Inr {}" by blast
  from inst [of None "py ''locked.txt''" UnicodeDecodeError] h2
  have c2: "load_bip39_words listing_file_system (Some (py ''locked.txt'')) = Inr {}" by blast
  from inst [of None "py ''english.txt''" _ "[py ''Abandon'' @ [10], [10], 32 # 32 # py ''able'' @ [9, 10], py ''able'']"] h3 h4
  have c3: "load_bip39_words listing_file_system (Some (py ''english.txt'')) =
      Inr (strip_py ` {line \<in> set [py ''Abandon'' @ [10], [10], 32 # 32 # py ''able'' @ [9, 10], py ''able''].
              strip_py line \<noteq> []})" by blast
  from inst [of None] have c4: "load_bip39_words listing_file_system None =
      load_bip39_words listing_file_system (Some BIP39_WORDLIST_FILE)" by blast
  have c5: "load_bip39_words listing_file_system None = Inr {py ''Abandon'', py ''able''}"
    unfolding c4 BIP39_WORDLIST_FILE_def c3 s by (rule refl)
  from h1 c1 h2 c2 h3 c5 show ?thesis by blast
qed



text \<open>
  Claim C9.  No exception escapes.  The only operation of the three functions that can
  raise on a string is the division in the classifier; the classifier returns a value on
  every text and dictionary, and where the first guard has passed the divisor is not
  zero, so the division returns a quotient.  The tokenizer and the extractor have no such
  operation; the extractor returns a finite set, and on the empty string the three
  functions return the empty list, \<open>False\<close> and the empty set.
\<close>

theorem no_exception_escapes:
  "(\<exists>b. is_potential_seed_phrase text D = Inr b) \<and>
   (\<exists>b l. is_potential_seed_phrase_logged text D = Inr (b, l)) \<and>
   (MIN_SEED_WORDS \<le> length (extract_english_words text) \<longrightarrow>
      (\<exists>density. py_truediv (length (filter (\<lambda>word. word \<in> D) (extract_english_words text)))
                     (length (extract_english_words text)) = Inr density)) \<and>
   finite (extract_seed_phrases text D) \<and>
   extract_english_words [] = [] \<and>
   is_potential_seed_phrase [] D = Inr False \<and>
   extract_seed_phrases [] D = {}"
proof (intro conjI impI)
  show "\<exists>b. is_potential_seed_phrase text D = Inr b"
    by (rule exI) (rule is_potential_seed_phrase_eq [OF refl refl])
next
  show "\<exists>b l. is_potential_seed_phrase_logged text D = Inr (b, l)"
    unfolding logged_unfold [OF refl refl refl]
    by (cases "find (dense_window D) (windows (extract_english_words text))") auto
next
  assume "MIN_SEED_WORDS \<le> length (extract_english_words text)"
  then have "length (extract_english_words text) \<noteq> 0"
    using MIN_SEED_WORDS_pos by linarith
  then show "\<exists>density. py_truediv (length (filter (\<lambda>word. word \<in> D) (extract_english_words text)))
                     (length (extract_english_words text)) = Inr density"
    unfolding py_truediv_def by simp
next
  show "finite (extract_seed_phrases text D)"
    unfolding extract_seed_phrases_def Let_def
    by (cases "collect_phrases D (extract_english_words text) ([], [])") simp
next
  show e: "extract_english_words [] = []"
    by (simp add: tokenizer_eval)
  show "is_potential_seed_phrase [] D = Inr False"
    unfolding is_potential_seed_phrase_eq [OF refl refl] e using MIN_SEED_WORDS_pos by simp
  show "extract_seed_phrases [] D = {}"
    unfolding extract_seed_phrases_def Let_def e using MIN_SEED_WORDS_pos by simp
qed

theorem no_exception_escapes_witness:
  "MIN_SEED_WORDS \<le> length (extract_english_words sparse_phrase) \<and>
   py_truediv (length (filter (\<lambda>word. word \<in> example_dictionary) (extract_english_words sparse_phrase)))
              (length (extract_english_words sparse_phrase)) \<noteq> Inl ZeroDivisionError \<and>
   is_potential_seed_phrase sparse_phrase example_dictionary = Inr False"
proof -
  have h: "MIN_SEED_WORDS \<le> length (extract_english_words sparse_phrase)"
    unfolding sparse_phrase_tokens by (simp add: MIN_SEED_WORDS_def)
  from no_exception_escapes [of sparse_phrase example_dictionary] h
  obtain density where
    "py_truediv (length (filter (\<lambda>word. word \<in> example_dictionary) (extract_english_words sparse_phrase)))
              (length (extract_english_words sparse_phrase)) = Inr density"
    by blast
  then have d: "py_truediv (length (filter (\<lambda>word. word \<in> example_dictionary) (extract_english_words sparse_phrase)))
              (length (extract_english_words sparse_phrase)) \<noteq> Inl ZeroDivisionError"
    by simp
  from h d returned_value [OF sparse_logged] show ?thesis by blast
qed

text \<open>
  Claim C10.  The classifier is monotone in the dictionary: a text classified \<open>True\<close>
  with a dictionary is classified \<open>True\<close> with every larger dictionary.
\<close>

theorem classifier_monotone_in_dictionary:
  assumes "D \<subseteq> D'" and "is_potential_seed_phrase text D = Inr True"
  shows "is_potential_seed_phrase text D' = Inr True"
proof -
  define words where "words = extract_english_words text"
  define hits where "hits = length (filter (\<lambda>word. word \<in> D) words)"
  define hits' where "hits' = length (filter (\<lambda>word. word \<in> D') words)"
  have hh: "hits \<le> hits'"
    unfolding hits_def hits'_def using assms(1) by (rule matched_words_mono)
  from assms(2) have l: "MIN_SEED_WORDS \<le> length words" and h: "MIN_SEED_WORDS \<le> hits"
    and d: "MIN_SEED_WORDS \<le> snd (count_consecutive D words (0, 0)) \<or>
           (\<exists>window \<in> set (windows words). dense_window D window) \<or>
           length words \<le> 2 * hits"
    unfolding is_potential_seed_phrase_eq [OF words_def hits_def] by simp_all
  have mx: "snd (count_consecutive D words (0, 0)) \<le> snd (count_consecutive D' words (0, 0))"
    using count_consecutive_mono [OF assms(1), of 0 0 0 0 words] by simp
  have d': "MIN_SEED_WORDS \<le> snd (count_consecutive D' words (0, 0)) \<or>
           (\<exists>window \<in> set (windows words). dense_window D' window) \<or>
           length words \<le> 2 * hits'"
    using d
  proof (elim disjE)
    assume "MIN_SEED_WORDS \<le> snd (count_consecutive D words (0, 0))"
    with mx show ?thesis by simp
  next
    assume "\<exists>window \<in> set (windows words). dense_window D window"
    then show ?thesis using dense_window_mono [OF assms(1)] by blast
  next
    assume "length words \<le> 2 * hits"
    with hh show ?thesis by simp
  qed
  from h hh have h': "MIN_SEED_WORDS \<le> hits'" by simp
  from l h' d' show ?thesis
    unfolding is_potential_seed_phrase_eq [OF words_def hits'_def] by simp
qed

theorem classifier_monotone_in_dictionary_witness:
  "example_dictionary \<subseteq> insert (py ''xyz'') example_dictionary \<and>
   is_potential_seed_phrase clean_phrase example_dictionary = Inr True \<and>
   is_potential_seed_phrase clean_phrase (insert (py ''xyz'') example_dictionary) = Inr True"
proof -
  have s: "example_dictionary \<subseteq> insert (py ''xyz'') example_dictionary" by blast
  have t: "is_potential_seed_phrase clean_phrase example_dictionary = Inr True"
    using clean_logged by (rule returned_value)
  from s t classifier_monotone_in_dictionary [OF s t] show ?thesis by blast
qed

end
